theory Spec2Isabelle
  imports Complex_Main
begin

section \<open>Numbers and errors\<close>

text \<open>
  The geometry module \<^verbatim>\<open>src/utilities/circularGeometry.ts\<close> and the path builder
  \<^verbatim>\<open>arcPathWithRoundedEnds\<close> compute on JavaScript numbers, which are IEEE 754
  binary64 values.  The functions are embedded twice.

  The first embedding is over \<^typ>\<open>real\<close> with exact arithmetic: \<^verbatim>\<open>Math.PI\<close> is
  \<^term>\<open>pi\<close>, \<^verbatim>\<open>Math.sin\<close> and \<^verbatim>\<open>Math.cos\<close> are \<^term>\<open>sin\<close> and \<^term>\<open>cos\<close>.  It
  states what the code computes up to rounding.  The only division whose divisor can be
  zero is the one of \<^verbatim>\<open>valueToAngle\<close> by \<^verbatim>\<open>maxValue - minValue\<close> (JavaScript yields
  NaN or an infinity there); every statement about that quotient assumes the two
  values differ.

  The second embedding (section "Double precision") rounds every arithmetic operation
  to binary64, for \<^verbatim>\<open>valueToAngle\<close>, \<^verbatim>\<open>convertAngle\<close> and \<^verbatim>\<open>positionToAngle\<close>.  It
  shows where a statement that holds in exact arithmetic is missed by the rounded
  computation.  NaN, the infinities and the sign of zero are not represented in either
  embedding.

  The two \<^verbatim>\<open>throw new Error(...)\<close> of the module are the two constructors of
  \<open>error\<close>: \<open>InvalidRange\<close> is "endAngle must be greater than startAngle",
  \<open>InternalInvariant\<close> is "Unhandled conversion".
\<close>

datatype error = InvalidRange | InternalInvariant

text \<open>
  The remainder operator \<^verbatim>\<open>a % n\<close> of JavaScript truncates the quotient towards
  zero, so the result has the sign of the dividend.  Every use in the source has
  \<open>n = 360\<close>.
\<close>

definition js_rem :: "real \<Rightarrow> real \<Rightarrow> real" where
  "js_rem a n = a - n * of_int (if 0 \<le> a / n then \<lfloor>a / n\<rfloor> else \<lceil>a / n\<rceil>)"

section \<open>Value and angle mapping\<close>

definition angleToValue :: "real \<Rightarrow> real \<Rightarrow> real \<Rightarrow> real \<Rightarrow> real \<Rightarrow> error + real" where
  "angleToValue angle minValue maxValue startAngle endAngle =
    (if endAngle \<le> startAngle then Inl InvalidRange
     else if angle < startAngle then Inr minValue
     else if angle > endAngle then Inr maxValue
     else (let ratio = (angle - startAngle) / (endAngle - startAngle);
               value = ratio * (maxValue - minValue) + minValue
           in Inr value))"

definition valueToAngle :: "real \<Rightarrow> real \<Rightarrow> real \<Rightarrow> real \<Rightarrow> real \<Rightarrow> error + real" where
  "valueToAngle value minValue maxValue startAngle endAngle =
    (if endAngle \<le> startAngle then Inl InvalidRange
     else (let ratio = (value - minValue) / (maxValue - minValue);
               angle = ratio * (endAngle - startAngle) + startAngle
           in Inr angle))"

section \<open>Angle descriptions and their conversion\<close>

datatype direction = CW | CCW

datatype axis = PlusX | MinusX | PlusY | MinusY

text \<open>The string literals of the two union types, as the source compares them.\<close>

fun direction_token :: "direction \<Rightarrow> string" where
  "direction_token CW = ''cw''"
| "direction_token CCW = ''ccw''"

fun axis_token :: "axis \<Rightarrow> string" where
  "axis_token PlusX = ''+x''"
| "axis_token MinusX = ''-x''"
| "axis_token PlusY = ''+y''"
| "axis_token MinusY = ''-y''"

record AngleDescription =
  direction :: direction
  axis :: axis

record AngleWithDescription = AngleDescription +
  degree :: real

text \<open>
  \<^verbatim>\<open>convertAngle(degree, from, to?)\<close>.  The optional \<open>to\<close> is an \<open>option\<close>; the
  \<^verbatim>\<open>switch\<close> on the concatenated string is a membership test in the list of its
  \<^verbatim>\<open>case\<close> labels, and its \<^verbatim>\<open>default\<close> is the error.
\<close>

definition convertAngle ::
  "real \<Rightarrow> 'a AngleDescription_scheme \<Rightarrow> AngleDescription option \<Rightarrow> error + real" where
  "convertAngle degree0 from to0 =
    (let to = (case to0 of Some t \<Rightarrow> t | None \<Rightarrow> \<lparr>direction = CCW, axis = PlusX\<rparr>);
         degree = (if direction from \<noteq> direction to
                   then (if degree0 = 0 then 0 else 360 - degree0)
                   else degree0)
     in if axis from = axis to then Inr degree
        else if axis_token (axis from) ! 1 = axis_token (axis to) ! 1
          then Inr (js_rem (180 + degree) 360)
        else
          let key = direction_token (direction to) @ axis_token (axis from) @ axis_token (axis to)
          in if key \<in> set [''ccw+x-y'', ''ccw-x+y'', ''ccw+y+x'', ''ccw-y-x'',
                              ''cw+y-x'', ''cw-y+x'', ''cw-x-y'', ''cw+x+y'']
               then Inr (js_rem (90 + degree) 360)
             else if key \<in> set [''ccw+y-x'', ''ccw-y+x'', ''ccw+x+y'', ''ccw-x-y'',
                                   ''cw+x-y'', ''cw-x+y'', ''cw+y+x'', ''cw-y-x'']
               then Inr (js_rem (270 + degree) 360)
             else Inl InternalInvariant)"

text \<open>
  The algorithm as section 4.2 of the specification words it, over the tags
  themselves: the flip of the rotational sense, the test "on the same line", and the
  two buckets of eight (target direction, from-axis, to-axis) pairings.
\<close>

definition flipSense :: "real \<Rightarrow> real" where
  "flipSense d = (if d = 0 then 0 else 360 - d)"

fun xLine :: "axis \<Rightarrow> bool" where
  "xLine PlusX = True"
| "xLine MinusX = True"
| "xLine PlusY = False"
| "xLine MinusY = False"

definition offset90 :: "(direction \<times> axis \<times> axis) list" where
  "offset90 = [(CCW, PlusX, MinusY), (CCW, MinusX, PlusY), (CCW, PlusY, PlusX), (CCW, MinusY, MinusX),
               (CW, PlusY, MinusX), (CW, MinusY, PlusX), (CW, MinusX, MinusY), (CW, PlusX, PlusY)]"

definition offset270 :: "(direction \<times> axis \<times> axis) list" where
  "offset270 = [(CCW, PlusY, MinusX), (CCW, MinusY, PlusX), (CCW, PlusX, PlusY), (CCW, MinusX, MinusY),
                (CW, PlusX, MinusY), (CW, MinusX, PlusY), (CW, PlusY, PlusX), (CW, MinusY, MinusX)]"

definition convertAngle_spec ::
  "real \<Rightarrow> 'a AngleDescription_scheme \<Rightarrow> AngleDescription \<Rightarrow> error + real" where
  "convertAngle_spec d from to =
    (let d' = (if direction from = direction to then d else flipSense d)
     in if axis from = axis to then Inr d'
        else if xLine (axis from) = xLine (axis to) then Inr (js_rem (180 + d') 360)
        else if (direction to, axis from, axis to) \<in> set offset90 then Inr (js_rem (90 + d') 360)
        else if (direction to, axis from, axis to) \<in> set offset270 then Inr (js_rem (270 + d') 360)
        else Inl InternalInvariant)"

section \<open>Angle and screen position\<close>

text \<open>A position \<^verbatim>\<open>{ x, y }\<close> is the pair \<open>(x, y)\<close>.\<close>

type_synonym position = "real \<times> real"

definition angleToPosition :: "AngleWithDescription \<Rightarrow> real \<Rightarrow> real \<Rightarrow> error + position" where
  "angleToPosition angle radius svgSize =
    (case convertAngle (degree angle) angle (Some \<lparr>direction = CCW, axis = PlusX\<rparr>) of
       Inl e \<Rightarrow> Inl e
     | Inr angleConverted \<Rightarrow>
        (let angleInRad = (angleConverted / 180) * pi;
             (dX, dY) =
               (if angleInRad \<le> pi then
                  (if angleInRad \<le> pi / 2
                   then (cos angleInRad * radius, sin angleInRad * radius)
                   else (cos (pi - angleInRad) * radius * - 1, sin (pi - angleInRad) * radius))
                else if angleInRad \<le> pi * 1.5
                  then (cos (angleInRad - pi) * radius * - 1, sin (angleInRad - pi) * radius * - 1)
                else (cos (2 * pi - angleInRad) * radius, sin (2 * pi - angleInRad) * radius * - 1));
             x = dX + svgSize / 2;
             y = svgSize / 2 - dY
         in Inr (x, y)))"

text \<open>
  \<^verbatim>\<open>Math.atan2(y, x)\<close> is a built-in of the language: the angle in \<open>(-\<pi>, \<pi>]\<close> of the
  point \<open>(x, y)\<close>, and \<open>0\<close> at the origin.
\<close>

definition atan2 :: "real \<Rightarrow> real \<Rightarrow> real" where
  "atan2 y x =
    (if 0 < x then arctan (y / x)
     else if x < 0 then (if 0 \<le> y then arctan (y / x) + pi else arctan (y / x) - pi)
     else if 0 < y then pi / 2
     else if y < 0 then - (pi / 2)
     else 0)"

definition positionToAngle :: "position \<Rightarrow> real \<Rightarrow> AngleDescription \<Rightarrow> error + real" where
  "positionToAngle position svgSize angleType =
    (let dX = fst position - svgSize / 2;
         dY = svgSize / 2 - snd position;
         theta0 = atan2 dY dX;
         theta = (if theta0 < 0 then theta0 + 2 * pi else theta0);
         degree = (theta / pi) * 180
     in convertAngle degree \<lparr>direction = CCW, axis = PlusX\<rparr> (Some angleType))"

section \<open>The arc path with rounded ends\<close>

text \<open>
  The source returns the text of an SVG path: a move, four elliptical arcs and a
  closing \<^verbatim>\<open>Z\<close>.  The text is kept as the list of its commands; an arc holds its
  two radii, the rotation, the two flags as the source prints them (\<open>''1''\<close> or
  \<open>''0''\<close>) and its end point.  How a number is printed is not modelled.
\<close>

datatype segment =
    MoveTo real real
  | ArcTo (radiusX: real) (radiusY: real) (rotation: real)
      (largeArcFlag: string) (sweepFlag: string) (endX: real) (endY: real)
  | ClosePath

definition arcPathWithRoundedEnds ::
  "real \<Rightarrow> real \<Rightarrow> AngleDescription \<Rightarrow> real \<Rightarrow> real \<Rightarrow> real \<Rightarrow> direction \<Rightarrow> error + segment list" where
  "arcPathWithRoundedEnds startAngle endAngle0 angleType innerRadius thickness svgSize direction' =
    (let endAngle = (if js_rem startAngle 360 = js_rem endAngle0 360 \<and> startAngle \<noteq> endAngle0
                     then endAngle0 - 0.001 else endAngle0);
         largeArc = (endAngle - startAngle \<ge> 180);
         outerRadius = innerRadius + thickness
     in case angleToPosition
               \<lparr>direction = direction angleType, axis = axis angleType, degree = startAngle\<rparr>
               innerRadius svgSize of
          Inl e \<Rightarrow> Inl e
        | Inr innerArcStart \<Rightarrow>
     (case angleToPosition
               \<lparr>direction = direction angleType, axis = axis angleType, degree = endAngle\<rparr>
               innerRadius svgSize of
          Inl e \<Rightarrow> Inl e
        | Inr innerArcEnd \<Rightarrow>
     (case angleToPosition
               \<lparr>direction = direction angleType, axis = axis angleType, degree = endAngle\<rparr>
               outerRadius svgSize of
          Inl e \<Rightarrow> Inl e
        | Inr outerArcStart \<Rightarrow>
     (case angleToPosition
               \<lparr>direction = direction angleType, axis = axis angleType, degree = startAngle\<rparr>
               outerRadius svgSize of
          Inl e \<Rightarrow> Inl e
        | Inr outerArcEnd \<Rightarrow>
          Inr [MoveTo (fst innerArcStart) (snd innerArcStart),
               ArcTo innerRadius innerRadius 0
                 (if largeArc then ''1'' else ''0'')
                 (if direction' = CW then ''1'' else ''0'')
                 (fst innerArcEnd) (snd innerArcEnd),
               ArcTo (thickness / 2) (thickness / 2) 0
                 (if largeArc then ''1'' else ''0'')
                 (if direction' = CW then ''0'' else ''1'')
                 (fst outerArcStart) (snd outerArcStart),
               ArcTo outerRadius outerRadius 0
                 (if largeArc then ''1'' else ''0'')
                 (if direction' = CW then ''0'' else ''1'')
                 (fst outerArcEnd) (snd outerArcEnd),
               ArcTo (thickness / 2) (thickness / 2) 0
                 (if largeArc then ''1'' else ''0'')
                 (if direction' = CW then ''0'' else ''1'')
                 (fst innerArcStart) (snd innerArcStart),
               ClosePath]))))"

text \<open>Two angles in degrees name the same direction when they differ by whole turns.\<close>

definition cong360 :: "real \<Rightarrow> real \<Rightarrow> bool" where
  "cong360 a b \<longleftrightarrow> (\<exists>k::int. a = b + 360 * of_int k)"

text \<open>
  Modulo whole turns \<open>convertAngle\<close> is an affine map of the degree: a sign for the
  rotational sense and an offset for the axis.
\<close>

definition senseSign :: "'a AngleDescription_scheme \<Rightarrow> AngleDescription \<Rightarrow> real" where
  "senseSign from to = (if direction from = direction to then 1 else - 1)"

definition turnOffset :: "'a AngleDescription_scheme \<Rightarrow> AngleDescription \<Rightarrow> real" where
  "turnOffset from to =
    (if axis from = axis to then 0
     else if xLine (axis from) = xLine (axis to) then 180
     else if (direction to, axis from, axis to) \<in> set offset90 then 90
     else 270)"

text \<open>The sweep flags of the arcs of a path, in order.\<close>

fun sweepFlags :: "segment list \<Rightarrow> string list" where
  "sweepFlags [] = []"
| "sweepFlags (ArcTo rx ry rot large sweep x y # path) = sweep # sweepFlags path"
| "sweepFlags (MoveTo x y # path) = sweepFlags path"
| "sweepFlags (ClosePath # path) = sweepFlags path"

section \<open>Double precision\<close>

text \<open>
  A JavaScript number is a binary64 value, and each arithmetic operation returns the
  exact result rounded to the nearest such value, ties to the even significand.
  \<open>fl\<close> is that rounding on the reals: in the binade \<open>2 ^ e \<le> |x| < 2 ^ (e + 1)\<close> the
  representable values are the multiples of \<open>2 ^ (e - 52)\<close>, and below \<open>2 ^ (- 1022)\<close> the
  multiples of \<open>2 ^ (- 1074)\<close>.  Overflow to an infinity (a result of magnitude
  \<open>2 ^ 1024\<close> or more) is not represented.
\<close>

definition rne :: "real \<Rightarrow> int" where
  "rne y = (let f = \<lfloor>y\<rfloor>; r = y - of_int f
            in if r < 1 / 2 then f
               else if 1 / 2 < r then f + 1
               else if even f then f else f + 1)"

definition binade :: "real \<Rightarrow> int" where
  "binade x = \<lfloor>log 2 \<bar>x\<bar>\<rfloor>"

definition fl :: "real \<Rightarrow> real" where
  "fl x = (if x = 0 then 0
           else let q = 2 powi (max (binade x) (- 1022) - 52)
                in q * of_int (rne (x / q)))"

text \<open>
  \<^verbatim>\<open>Math.PI\<close> is the binary64 value nearest to \<open>\<pi>\<close>, \<open>3.141592653589793\<close>.
\<close>

definition Math_PI :: real where
  "Math_PI = 884279719003555 / 2 ^ 48"

text \<open>
  \<^verbatim>\<open>Math.atan2\<close> on binary64 values.  The language leaves its last place to the
  implementation; it is taken as the rounded value of the exact angle.  The one
  evaluation below uses only that its result lies strictly between \<open>- (2 ^ (- 51))\<close>
  and \<open>0\<close>.
\<close>

definition atan2_d :: "real \<Rightarrow> real \<Rightarrow> real" where
  "atan2_d y x = fl (atan2 y x)"

text \<open>
  \<^verbatim>\<open>valueToAngle\<close>, \<^verbatim>\<open>convertAngle\<close> and \<^verbatim>\<open>positionToAngle\<close> with every operation
  rounded, in the order the source evaluates them.  The arguments are meant to be
  binary64 values.  The remainder \<^verbatim>\<open>%\<close> is exact on binary64 values and is not rounded.
\<close>

definition valueToAngle_d :: "real \<Rightarrow> real \<Rightarrow> real \<Rightarrow> real \<Rightarrow> real \<Rightarrow> error + real" where
  "valueToAngle_d value minValue maxValue startAngle endAngle =
    (if endAngle \<le> startAngle then Inl InvalidRange
     else (let ratio = fl (fl (value - minValue) / fl (maxValue - minValue));
               angle = fl (fl (ratio * fl (endAngle - startAngle)) + startAngle)
           in Inr angle))"

definition convertAngle_d ::
  "real \<Rightarrow> 'a AngleDescription_scheme \<Rightarrow> AngleDescription option \<Rightarrow> error + real" where
  "convertAngle_d degree0 from to0 =
    (let to = (case to0 of Some t \<Rightarrow> t | None \<Rightarrow> \<lparr>direction = CCW, axis = PlusX\<rparr>);
         degree = (if direction from \<noteq> direction to
                   then (if degree0 = 0 then 0 else fl (360 - degree0))
                   else degree0)
     in if axis from = axis to then Inr degree
        else if axis_token (axis from) ! 1 = axis_token (axis to) ! 1
          then Inr (js_rem (fl (180 + degree)) 360)
        else
          let key = direction_token (direction to) @ axis_token (axis from) @ axis_token (axis to)
          in if key \<in> set [''ccw+x-y'', ''ccw-x+y'', ''ccw+y+x'', ''ccw-y-x'',
                              ''cw+y-x'', ''cw-y+x'', ''cw-x-y'', ''cw+x+y'']
               then Inr (js_rem (fl (90 + degree)) 360)
             else if key \<in> set [''ccw+y-x'', ''ccw-y+x'', ''ccw+x+y'', ''ccw-x-y'',
                                   ''cw+x-y'', ''cw-x+y'', ''cw+y+x'', ''cw-y-x'']
               then Inr (js_rem (fl (270 + degree)) 360)
             else Inl InternalInvariant)"

definition positionToAngle_d :: "position \<Rightarrow> real \<Rightarrow> AngleDescription \<Rightarrow> error + real" where
  "positionToAngle_d position svgSize angleType =
    (let dX = fl (fst position - fl (svgSize / 2));
         dY = fl (fl (svgSize / 2) - snd position);
         theta0 = atan2_d dY dX;
         theta = (if theta0 < 0 then fl (theta0 + fl (2 * Math_PI)) else theta0);
         degree = fl (fl (theta / Math_PI) * 180)
     in convertAngle_d degree \<lparr>direction = CCW, axis = PlusX\<rparr> (Some angleType))"

section \<open>Rounding to double precision\<close>

lemma binade_eq:
  assumes "2 powi e \<le> \<bar>x\<bar>" "\<bar>x\<bar> < 2 powi (e + 1)"
  shows "binade x = e"
proof -
  have pos: "0 < \<bar>x\<bar>" using assms(1) by (smt (verit) zero_less_power_int)
  have "(2::real) powr (of_int e) = 2 powi e" "(2::real) powr (of_int (e + 1)) = 2 powi (e + 1)"
    by (rule powr_real_of_int'; simp)+
  then have "(2::real) powr (of_int e) \<le> \<bar>x\<bar>" "\<bar>x\<bar> < (2::real) powr (of_int e + 1)"
    using assms by simp_all
  then show ?thesis
    unfolding binade_def using pos by (simp add: floor_log_eq_powr_iff)
qed

lemma fl_in_binade:
  assumes "2 powi e \<le> \<bar>x\<bar>" "\<bar>x\<bar> < 2 powi (e + 1)" "- 1022 \<le> e"
  shows "fl x = 2 powi (e - 52) * of_int (rne (x / 2 powi (e - 52)))"
proof -
  have "binade x = e" using assms(1,2) by (rule binade_eq)
  moreover have "x \<noteq> 0" using assms(1) by (smt (verit) zero_less_power_int abs_zero)
  ultimately show ?thesis using assms(3) by (simp add: fl_def Let_def max_def)
qed

lemma rne_near:
  assumes "\<bar>y - of_int n\<bar> < 1 / 2"
  shows "rne y = n"
proof -
  consider (lo) "y < of_int n" | (hi) "of_int n \<le> y" by linarith
  then show ?thesis
  proof cases
    case lo
    have a: "of_int (n - 1) \<le> y" "y < of_int (n - 1) + 1" "1 / 2 < y - of_int (n - 1)"
      using assms lo by (simp_all add: abs_less_iff)
    from a(1,2) have f: "\<lfloor>y\<rfloor> = n - 1" by (rule floor_unique)
    note a(3)
    then show ?thesis by (simp add: rne_def Let_def f)
  next
    case hi
    have a: "of_int n \<le> y" "y < of_int n + 1" "y - of_int n < 1 / 2"
      using assms hi by (simp_all add: abs_less_iff)
    from a(1,2) have f: "\<lfloor>y\<rfloor> = n" by (rule floor_unique)
    note a(3)
    then show ?thesis by (simp add: rne_def Let_def f)
  qed
qed

lemma rne_of_int [simp]: "rne (of_int n) = n"
  by (rule rne_near) simp

lemma rne_numeral [simp]:
  "rne (numeral k) = numeral k" "rne (- numeral k) = - numeral k"
  using rne_of_int [of "numeral k"] rne_of_int [of "- numeral k"] by simp_all

lemma rne_error: "\<bar>of_int (rne y) - y\<bar> \<le> 1 / 2"
proof -
  have "of_int \<lfloor>y\<rfloor> \<le> y" "y < of_int \<lfloor>y\<rfloor> + 1" by linarith+
  then show ?thesis by (auto simp: rne_def Let_def)
qed

lemma fl_error:
  assumes "2 powi e \<le> \<bar>x\<bar>" "\<bar>x\<bar> < 2 powi (e + 1)" "- 1022 \<le> e"
  shows "\<bar>fl x - x\<bar> \<le> 2 powi (e - 52) / 2"
proof -
  let ?q = "(2::real) powi (e - 52)"
  have q: "0 < ?q" by simp
  have "fl x - x = ?q * (of_int (rne (x / ?q)) - x / ?q)"
    using q by (simp add: fl_in_binade [OF assms] algebra_simps)
  then have "\<bar>fl x - x\<bar> = ?q * \<bar>of_int (rne (x / ?q)) - x / ?q\<bar>"
    using q by (simp add: abs_mult)
  also have "\<dots> \<le> ?q * (1 / 2)"
    using q rne_error [of "x / ?q"] by (intro mult_left_mono) simp_all
  finally show ?thesis by simp
qed

lemma fl_0 [simp]: "fl 0 = 0"
  by (simp add: fl_def)

lemma fl_1 [simp]: "fl 1 = 1"
  using fl_in_binade [of 0 1] by simp

section \<open>Value and angle mapping: results\<close>

text \<open>
  C1.  Whenever \<open>endAngle > startAngle\<close>, \<open>angleToValue\<close> returns \<open>minValue\<close> itself
  for an angle below \<open>startAngle\<close>, \<open>maxValue\<close> itself for an angle above \<open>endAngle\<close>,
  and otherwise the linear interpolation
  \<open>minValue + (angle - startAngle) / (endAngle - startAngle) * (maxValue - minValue)\<close>;
  nothing is assumed about the order of \<open>minValue\<close> and \<open>maxValue\<close>, and the
  interpolated result is returned as computed.
\<close>

theorem angleToValue_cases:
  assumes "startAngle < endAngle"
  shows "angleToValue angle minValue maxValue startAngle endAngle =
           Inr (if angle < startAngle then minValue
                else if endAngle < angle then maxValue
                else minValue + (angle - startAngle) / (endAngle - startAngle) * (maxValue - minValue))"
  using assms by (simp add: angleToValue_def Let_def)

theorem angleToValue_cases_witness:
  "(20::real) < 100
   \<and> angleToValue 10 100 0 20 100 = Inr 100
   \<and> angleToValue 120 100 0 20 100 = Inr 0
   \<and> angleToValue 60 100 0 20 100 = Inr 50"
  using angleToValue_cases [of 20 100 10 100 0]
        angleToValue_cases [of 20 100 120 100 0]
        angleToValue_cases [of 20 100 60 100 0]
  by simp

text \<open>
  C2.  \<open>angleToValue\<close> and \<open>valueToAngle\<close> fail with \<open>InvalidRange\<close> exactly when
  \<open>endAngle \<le> startAngle\<close> (equal end points included); a failing call returns no
  value, and a call that does not fail returns one.
\<close>

theorem invalid_range_iff:
  "(angleToValue angle minValue maxValue startAngle endAngle = Inl InvalidRange
      \<longleftrightarrow> endAngle \<le> startAngle)
   \<and> (valueToAngle v minValue maxValue startAngle endAngle = Inl InvalidRange
      \<longleftrightarrow> endAngle \<le> startAngle)
   \<and> (isl (angleToValue angle minValue maxValue startAngle endAngle)
      \<longleftrightarrow> endAngle \<le> startAngle)
   \<and> (isl (valueToAngle v minValue maxValue startAngle endAngle)
      \<longleftrightarrow> endAngle \<le> startAngle)"
  by (simp add: angleToValue_def valueToAngle_def Let_def)

theorem invalid_range_iff_witness:
  "angleToValue 50 0 100 100 100 = Inl InvalidRange
   \<and> valueToAngle 50 0 100 90 30 = Inl InvalidRange
   \<and> \<not> isl (angleToValue 50 0 100 20 100)
   \<and> \<not> isl (valueToAngle 50 0 100 30 90)"
  using invalid_range_iff [of 50 0 100 100 100 50]
        invalid_range_iff [of 50 0 100 90 30 50]
        invalid_range_iff [of 50 0 100 20 100 50]
        invalid_range_iff [of 50 0 100 30 90 50]
  by simp

lemma ratio_extrapolates:
  fixes r s e :: real
  assumes "s < e"
  shows "(r * (e - s) + s < s \<longleftrightarrow> r < 0) \<and> (e < r * (e - s) + s \<longleftrightarrow> 1 < r)"
proof -
  from assms have pos: "0 < e - s" by simp
  have "r * (e - s) + s < s \<longleftrightarrow> r * (e - s) < 0" by simp
  also have "\<dots> \<longleftrightarrow> r < 0" using pos by (simp add: mult_less_0_iff)
  finally have a: "r * (e - s) + s < s \<longleftrightarrow> r < 0" .
  have "e < r * (e - s) + s \<longleftrightarrow> 1 * (e - s) < r * (e - s)" by auto
  also have "\<dots> \<longleftrightarrow> 1 < r" using pos by (simp only: mult_less_cancel_right_pos)
  finally have b: "e < r * (e - s) + s \<longleftrightarrow> 1 < r" .
  from a b show ?thesis by simp
qed

lemma valueToAngle_exact:
  assumes "startAngle < endAngle" and "maxValue \<noteq> minValue"
  shows "valueToAngle v minValue maxValue startAngle endAngle =
           Inr (startAngle + (v - minValue) / (maxValue - minValue) * (endAngle - startAngle))
         \<and> valueToAngle minValue minValue maxValue startAngle endAngle = Inr startAngle
         \<and> valueToAngle maxValue minValue maxValue startAngle endAngle = Inr endAngle
         \<and> (\<exists>a. valueToAngle v minValue maxValue startAngle endAngle = Inr a
               \<and> (a < startAngle \<longleftrightarrow> (v - minValue) / (maxValue - minValue) < 0)
               \<and> (endAngle < a \<longleftrightarrow> 1 < (v - minValue) / (maxValue - minValue))
               \<and> (minValue < maxValue \<and> v < minValue \<longrightarrow> a < startAngle)
               \<and> (minValue < maxValue \<and> maxValue < v \<longrightarrow> endAngle < a))"
proof -
  let ?r = "(v - minValue) / (maxValue - minValue)"
  let ?a = "?r * (endAngle - startAngle) + startAngle"
  from assms(1) have eq: "valueToAngle v minValue maxValue startAngle endAngle = Inr ?a"
    by (simp add: valueToAngle_def Let_def)
  have formula: "?a = startAngle + ?r * (endAngle - startAngle)" by simp
  from assms have lo: "valueToAngle minValue minValue maxValue startAngle endAngle = Inr startAngle"
    by (simp add: valueToAngle_def Let_def)
  from assms have hi: "valueToAngle maxValue minValue maxValue startAngle endAngle = Inr endAngle"
    by (simp add: valueToAngle_def Let_def)
  from ratio_extrapolates [OF assms(1), of ?r]
  have ex: "(?a < startAngle \<longleftrightarrow> ?r < 0)" "(endAngle < ?a \<longleftrightarrow> 1 < ?r)" by simp_all
  have below: "?r < 0" if "minValue < maxValue" "v < minValue"
    using that by (simp add: divide_less_0_iff)
  have above: "1 < ?r" if "minValue < maxValue" "maxValue < v"
    using that by (simp add: field_simps)
  show ?thesis
    using eq formula lo hi ex below above by auto
qed

lemma valueToAngle_d_minValue:
  assumes "startAngle < endAngle" "fl startAngle = startAngle"
  shows "valueToAngle_d minValue minValue maxValue startAngle endAngle = Inr startAngle"
  using assms by (simp add: valueToAngle_d_def Let_def)

text \<open>
  C3 (up to rounding).  Whenever \<open>endAngle > startAngle\<close> and \<open>maxValue \<noteq> minValue\<close>:
  in exact arithmetic \<open>valueToAngle\<close> returns
  \<open>startAngle + (value - minValue) / (maxValue - minValue) * (endAngle - startAngle)\<close>,
  maps \<open>minValue\<close> to \<open>startAngle\<close> and \<open>maxValue\<close> to \<open>endAngle\<close>, and does not clamp:
  the result lies below \<open>startAngle\<close> exactly when the ratio is negative and above
  \<open>endAngle\<close> exactly when the ratio exceeds one, so on an increasing scale a value
  below \<open>minValue\<close> or above \<open>maxValue\<close> leaves \<open>[startAngle, endAngle]\<close>.  With every
  operation rounded to double precision, \<open>minValue\<close> is still mapped to \<open>startAngle\<close>
  itself (for a representable \<open>startAngle\<close> and a difference \<open>endAngle - startAngle\<close>
  that does not overflow); the image of \<open>maxValue\<close> is \<open>endAngle\<close> only up to the
  rounding of \<open>(endAngle - startAngle) + startAngle\<close>.
\<close>

theorem valueToAngle_linear:
  assumes "startAngle < endAngle" and "maxValue \<noteq> minValue"
  shows "valueToAngle v minValue maxValue startAngle endAngle =
           Inr (startAngle + (v - minValue) / (maxValue - minValue) * (endAngle - startAngle))
         \<and> valueToAngle minValue minValue maxValue startAngle endAngle = Inr startAngle
         \<and> valueToAngle maxValue minValue maxValue startAngle endAngle = Inr endAngle
         \<and> (\<exists>a. valueToAngle v minValue maxValue startAngle endAngle = Inr a
               \<and> (a < startAngle \<longleftrightarrow> (v - minValue) / (maxValue - minValue) < 0)
               \<and> (endAngle < a \<longleftrightarrow> 1 < (v - minValue) / (maxValue - minValue))
               \<and> (minValue < maxValue \<and> v < minValue \<longrightarrow> a < startAngle)
               \<and> (minValue < maxValue \<and> maxValue < v \<longrightarrow> endAngle < a))
         \<and> (fl startAngle = startAngle \<and> \<bar>endAngle - startAngle\<bar> < 2 ^ 1023 \<longrightarrow>
               valueToAngle_d minValue minValue maxValue startAngle endAngle = Inr startAngle)"
  using valueToAngle_exact [OF assms, of v] valueToAngle_d_minValue [OF assms(1), of minValue maxValue]
  by blast

theorem valueToAngle_linear_witness:
  "(30::real) < 90 \<and> (100::real) \<noteq> 0
   \<and> valueToAngle 50 0 100 30 90 = Inr 60
   \<and> valueToAngle 0 0 100 30 90 = Inr 30
   \<and> valueToAngle 100 0 100 30 90 = Inr 90
   \<and> valueToAngle 150 0 100 30 90 = Inr 120
   \<and> valueToAngle (- 50) 0 100 30 90 = Inr 0
   \<and> fl 30 = 30
   \<and> valueToAngle_d 0 0 100 30 90 = Inr 30"
  using valueToAngle_linear [of 30 90 100 0 50]
        valueToAngle_linear [of 30 90 100 0 150]
        valueToAngle_linear [of 30 90 100 0 "- 50"]
        fl_in_binade [of 4 30]
  by simp

text \<open>
  C3 as stated fails in double precision.  With \<open>value = maxValue = 1\<close>,
  \<open>minValue = 0\<close>, \<open>startAngle = -0.1\<close> and \<open>endAngle = 0.3\<close> (the binary64 values
  written so), the ratio is \<open>1\<close>, the difference \<open>endAngle - startAngle\<close> rounds to
  \<open>7205759403792794 / 2 ^ 54\<close>, and adding \<open>startAngle\<close> rounds to
  \<open>5404319552844596 / 2 ^ 54\<close>, printed \<open>0.30000000000000004\<close>: one unit in the last
  place above \<open>endAngle = 5404319552844595 / 2 ^ 54\<close>.
\<close>

theorem valueToAngle_endAngle_counterexample:
  "fl (- (1 / 10)) = - (3602879701896397 / 2 ^ 55)
   \<and> fl (3 / 10) = 5404319552844595 / 2 ^ 54
   \<and> valueToAngle_d 1 0 1 (fl (- (1 / 10))) (fl (3 / 10)) = Inr (5404319552844596 / 2 ^ 54)
   \<and> valueToAngle_d 1 0 1 (fl (- (1 / 10))) (fl (3 / 10)) \<noteq> Inr (fl (3 / 10))"
proof -
  have s: "fl (- (1 / 10)) = - (3602879701896397 / 2 ^ 55)"
    using fl_in_binade [of "- 4" "- (1 / 10)"] by (simp add: rne_def Let_def)
  have e: "fl (3 / 10) = 5404319552844595 / 2 ^ 54"
    using fl_in_binade [of "- 2" "3 / 10"] by (simp add: rne_def Let_def)
  have d: "fl (5404319552844595 / 2 ^ 54 - - (3602879701896397 / 2 ^ 55))
             = 7205759403792794 / 2 ^ 54"
    using fl_in_binade [of "- 2" "5404319552844595 / 2 ^ 54 - - (3602879701896397 / 2 ^ 55)"]
    by (simp add: rne_def Let_def)
  have m: "fl (1 * (7205759403792794 / 2 ^ 54)) = 7205759403792794 / 2 ^ 54"
    using fl_in_binade [of "- 2" "7205759403792794 / 2 ^ 54"] by simp
  have r: "fl (7205759403792794 / 2 ^ 54 + - (3602879701896397 / 2 ^ 55))
             = 5404319552844596 / 2 ^ 54"
    using fl_in_binade [of "- 2" "7205759403792794 / 2 ^ 54 + - (3602879701896397 / 2 ^ 55)"]
    by (simp add: rne_def Let_def)
  have one: "fl (fl (1 - 0) / fl (1 - 0)) = 1" by simp
  have lt: "\<not> (5404319552844595 / 2 ^ 54 \<le> - (3602879701896397 / 2 ^ 55 :: real))" by simp
  have v: "valueToAngle_d 1 0 1 (fl (- (1 / 10))) (fl (3 / 10)) = Inr (5404319552844596 / 2 ^ 54)"
    unfolding valueToAngle_d_def Let_def s e one d m r using lt by (simp only: if_False)
  show ?thesis unfolding v unfolding s e by simp
qed

section \<open>Angle description conversion: results\<close>

lemma convertAngle_eq_spec:
  "convertAngle d from (Some to) = convertAngle_spec d from to"
  by (cases "direction from"; cases "axis from"; cases "direction to"; cases "axis to")
     (simp_all add: convertAngle_def convertAngle_spec_def Let_def flipSense_def
        offset90_def offset270_def)

lemma convertAngle_spec_returns:
  "\<exists>v. convertAngle_spec d from to = Inr v"
  by (cases "direction from"; cases "axis from"; cases "direction to"; cases "axis to")
     (simp_all add: convertAngle_spec_def Let_def offset90_def offset270_def)

lemma convertAngle_default_to:
  "convertAngle d from None = convertAngle d from (Some \<lparr>direction = CCW, axis = PlusX\<rparr>)"
  by (simp add: convertAngle_def)

text \<open>
  C5.  For every degree and every pair of descriptions, \<open>convertAngle\<close> computes what
  the algorithm of section 4.2 prescribes (\<open>convertAngle_spec\<close>): a differing direction
  turns \<open>d\<close> into \<open>360 - d\<close> and leaves \<open>0\<close> fixed; equal axes return that degree
  unchanged; axes on the same line give \<open>(180 + degree) % 360\<close>; perpendicular axes
  give \<open>(90 + degree) % 360\<close> or \<open>(270 + degree) % 360\<close> according to the two listed
  buckets of eight pairings.  The remainder is the one of the source, which keeps the
  sign of the dividend.  An omitted target is counterclockwise from \<open>+x\<close>.
\<close>

theorem convertAngle_follows_spec:
  "convertAngle d from (Some to) = convertAngle_spec d from to
   \<and> convertAngle d from None = convertAngle_spec d from \<lparr>direction = CCW, axis = PlusX\<rparr>"
  by (simp only: convertAngle_default_to convertAngle_eq_spec)

theorem convertAngle_follows_spec_witness:
  "convertAngle 90 \<lparr>direction = CCW, axis = PlusX\<rparr> (Some \<lparr>direction = CW, axis = MinusY\<rparr>) = Inr 180
   \<and> convertAngle 0 \<lparr>direction = CCW, axis = PlusY\<rparr> (Some \<lparr>direction = CW, axis = PlusY\<rparr>) = Inr 0
   \<and> convertAngle 30 \<lparr>direction = CCW, axis = PlusY\<rparr> (Some \<lparr>direction = CW, axis = PlusY\<rparr>) = Inr 330
   \<and> convertAngle 200 \<lparr>direction = CW, axis = PlusX\<rparr> (Some \<lparr>direction = CW, axis = MinusX\<rparr>) = Inr 20
   \<and> convertAngle 300 \<lparr>direction = CW, axis = PlusY\<rparr> None = Inr 150"
  using convertAngle_follows_spec [of 90 "\<lparr>direction = CCW, axis = PlusX\<rparr>" "\<lparr>direction = CW, axis = MinusY\<rparr>"]
        convertAngle_follows_spec [of 0 "\<lparr>direction = CCW, axis = PlusY\<rparr>" "\<lparr>direction = CW, axis = PlusY\<rparr>"]
        convertAngle_follows_spec [of 30 "\<lparr>direction = CCW, axis = PlusY\<rparr>" "\<lparr>direction = CW, axis = PlusY\<rparr>"]
        convertAngle_follows_spec [of 200 "\<lparr>direction = CW, axis = PlusX\<rparr>" "\<lparr>direction = CW, axis = MinusX\<rparr>"]
        convertAngle_follows_spec [of 300 "\<lparr>direction = CW, axis = PlusY\<rparr>"]
  by (simp add: convertAngle_spec_def Let_def flipSense_def offset90_def offset270_def js_rem_def)

text \<open>
  C6.  For every degree and every pair of descriptions (two directions, four axes),
  \<open>convertAngle\<close> returns a value: the \<open>default\<close> branch of its \<open>switch\<close>, the
  \<open>InternalInvariant\<close> error, is never reached, with the target given or omitted.
\<close>

theorem convertAngle_never_raises:
  "(\<exists>v. convertAngle d from to = Inr v) \<and> convertAngle d from to \<noteq> Inl InternalInvariant"
proof -
  obtain t where "convertAngle d from to = convertAngle_spec d from t"
    by (cases to) (simp_all add: convertAngle_default_to convertAngle_eq_spec)
  moreover obtain v where "convertAngle_spec d from t = Inr v"
    using convertAngle_spec_returns by blast
  ultimately show ?thesis by simp
qed

lemma convertAngle_shape:
  "convertAngle d from (Some to) =
     Inr (if axis from = axis to
          then (if direction from = direction to then d else flipSense d)
          else js_rem (turnOffset from to + (if direction from = direction to then d else flipSense d)) 360)"
  unfolding convertAngle_eq_spec
  by (cases "direction from"; cases "axis from"; cases "direction to"; cases "axis to")
     (simp_all add: convertAngle_spec_def Let_def turnOffset_def offset90_def offset270_def)

lemma turnOffset_nonneg: "0 \<le> turnOffset from to"
  by (simp add: turnOffset_def)

lemma turnOffset_same_axis: "axis from = axis to \<Longrightarrow> turnOffset from to = 0"
  by (simp add: turnOffset_def)

section \<open>Congruence modulo a full turn\<close>

lemma cong360_refl: "cong360 a a"
  unfolding cong360_def by (rule exI [of _ 0]) simp

lemma cong360_sym: "cong360 a b \<Longrightarrow> cong360 b a"
proof -
  assume "cong360 a b"
  then obtain k :: int where "a = b + 360 * of_int k" unfolding cong360_def ..
  then have "b = a + 360 * of_int (- k)" by simp
  then show "cong360 b a" unfolding cong360_def ..
qed

lemma cong360_trans: "cong360 a b \<Longrightarrow> cong360 b c \<Longrightarrow> cong360 a c"
proof -
  assume "cong360 a b" "cong360 b c"
  then obtain k l :: int where "a = b + 360 * of_int k" "b = c + 360 * of_int l"
    unfolding cong360_def by blast
  then have "a = c + 360 * of_int (k + l)" by simp
  then show "cong360 a c" unfolding cong360_def ..
qed

lemma cong360_add: "cong360 a b \<Longrightarrow> cong360 (c + a) (c + b)"
proof -
  assume "cong360 a b"
  then obtain k :: int where "a = b + 360 * of_int k" unfolding cong360_def ..
  then have "c + a = (c + b) + 360 * of_int k" by simp
  then show ?thesis unfolding cong360_def ..
qed

lemma cong360_minus: "cong360 a b \<Longrightarrow> cong360 (- a) (- b)"
proof -
  assume "cong360 a b"
  then obtain k :: int where "a = b + 360 * of_int k" unfolding cong360_def ..
  then have "- a = (- b) + 360 * of_int (- k)" by simp
  then show ?thesis unfolding cong360_def ..
qed

lemma cong360_turn: "cong360 (a + 360) a"
  unfolding cong360_def by (rule exI [of _ 1]) simp

lemma cong360_js_rem: "cong360 (js_rem a 360) a"
proof -
  let ?k = "if 0 \<le> a / 360 then \<lfloor>a / 360\<rfloor> else \<lceil>a / 360\<rceil>"
  have "js_rem a 360 = a + 360 * of_int (- ?k)"
    unfolding js_rem_def by simp
  then show ?thesis unfolding cong360_def ..
qed

lemma cong360_flipSense: "cong360 (flipSense a) (- a)"
proof (cases "a = 0")
  case True
  then show ?thesis by (simp add: flipSense_def cong360_refl)
next
  case False
  then have "flipSense a = - a + 360 * of_int 1" by (simp add: flipSense_def)
  then show ?thesis unfolding cong360_def ..
qed

lemma js_rem_range:
  assumes "0 \<le> a"
  shows "0 \<le> js_rem a 360 \<and> js_rem a 360 < 360"
proof -
  from assms have nn: "0 \<le> a / 360" by simp
  have lo: "of_int \<lfloor>a / 360\<rfloor> \<le> a / 360" by (rule of_int_floor_le)
  have hi: "a / 360 < of_int \<lfloor>a / 360\<rfloor> + 1" by linarith
  from lo have "360 * of_int \<lfloor>a / 360\<rfloor> \<le> a" by linarith
  moreover from hi have "a < 360 * of_int \<lfloor>a / 360\<rfloor> + 360" by linarith
  ultimately show ?thesis using nn by (simp add: js_rem_def)
qed

lemma flipSense_range:
  "0 \<le> d \<Longrightarrow> d < 360 \<Longrightarrow> 0 \<le> flipSense d \<and> flipSense d < 360"
  by (simp add: flipSense_def)

lemma js_rem_small:
  assumes "- 360 < a" "a < 360"
  shows "js_rem a 360 = a"
proof (cases "0 \<le> a")
  case True
  then have "\<lfloor>a / 360\<rfloor> = 0" using assms by (simp add: floor_eq_iff)
  then show ?thesis using True by (simp add: js_rem_def)
next
  case False
  then have "\<lceil>a / 360\<rceil> = 0" using assms by (simp add: ceiling_eq_iff)
  then show ?thesis using False by (simp add: js_rem_def)
qed

lemma convertAngle_affine:
  "\<exists>v. convertAngle d from (Some to) = Inr v
       \<and> cong360 v (turnOffset from to + senseSign from to * d)"
proof -
  let ?d' = "if direction from = direction to then d else flipSense d"
  have flip: "cong360 ?d' (senseSign from to * d)"
    using cong360_flipSense [of d] by (simp add: senseSign_def cong360_refl)
  show ?thesis
  proof (cases "axis from = axis to")
    case True
    then show ?thesis using flip by (simp add: convertAngle_shape turnOffset_same_axis)
  next
    case False
    have "cong360 (js_rem (turnOffset from to + ?d') 360) (turnOffset from to + ?d')"
      by (rule cong360_js_rem)
    moreover have "cong360 (turnOffset from to + ?d') (turnOffset from to + senseSign from to * d)"
      using flip by (rule cong360_add)
    ultimately have "cong360 (js_rem (turnOffset from to + ?d') 360)
                       (turnOffset from to + senseSign from to * d)"
      by (rule cong360_trans)
    then show ?thesis using False by (simp add: convertAngle_shape)
  qed
qed

lemma cong360_scale:
  "cong360 a b \<Longrightarrow> cong360 (senseSign from to * a) (senseSign from to * b)"
  by (simp add: senseSign_def cong360_minus)

lemma convertAngle_range:
  assumes "0 \<le> d" "d < 360"
  shows "\<exists>w. convertAngle d from (Some to) = Inr w \<and> 0 \<le> w \<and> w < 360"
proof -
  let ?d' = "if direction from = direction to then d else flipSense d"
  have d': "0 \<le> ?d'" "?d' < 360"
    using assms flipSense_range [of d] by simp_all
  have "0 \<le> turnOffset from to + ?d'"
    using d'(1) turnOffset_nonneg [of "from" to] by linarith
  then have "0 \<le> js_rem (turnOffset from to + ?d') 360 \<and> js_rem (turnOffset from to + ?d') 360 < 360"
    by (rule js_rem_range)
  then show ?thesis using d' by (simp add: convertAngle_shape)
qed

text \<open>Back and forth between a description and the canonical one is a whole number of turns.\<close>

lemma there_and_back:
  fixes d :: AngleDescription
  shows "cong360 (turnOffset \<lparr>direction = CCW, axis = PlusX\<rparr> d
            + senseSign \<lparr>direction = CCW, axis = PlusX\<rparr> d
              * (turnOffset d \<lparr>direction = CCW, axis = PlusX\<rparr>
                 + senseSign d \<lparr>direction = CCW, axis = PlusX\<rparr> * a)) a"
  using cong360_turn [of a] cong360_refl [of a]
  by (cases "direction d"; cases "axis d")
     (simp_all add: turnOffset_def senseSign_def offset90_def offset270_def add.commute)

lemma turnOffset_degree [simp]:
  "turnOffset \<lparr>direction = dr, axis = ax, degree = a\<rparr> t = turnOffset \<lparr>direction = dr, axis = ax\<rparr> t"
  by (simp add: turnOffset_def)

lemma senseSign_degree [simp]:
  "senseSign \<lparr>direction = dr, axis = ax, degree = a\<rparr> t = senseSign \<lparr>direction = dr, axis = ax\<rparr> t"
  by (simp add: senseSign_def)

section \<open>The angle of a point\<close>

lemma atan2_bounds: "- pi < atan2 y x \<and> atan2 y x \<le> pi"
proof -
  have a: "- (pi / 2) < arctan (y / x)" "arctan (y / x) < pi / 2"
    using arctan_bounded [of "y / x"] by blast+
  consider (pos) "0 < x" | (neg) "x < 0" | (zero) "x = 0" by linarith
  then show ?thesis
  proof cases
    case pos
    then show ?thesis using a by (simp add: atan2_def)
  next
    case neg
    show ?thesis
    proof (cases "0 \<le> y")
      case True
      then have "y / x \<le> 0" using neg by (simp add: divide_nonneg_neg)
      then have "arctan (y / x) \<le> 0" by simp
      then show ?thesis using a neg True by (simp add: atan2_def)
    next
      case False
      then have "0 < y / x" using neg by (simp add: divide_neg_neg)
      then have "0 < arctan (y / x)" by simp
      then show ?thesis using a neg False by (simp add: atan2_def)
    qed
  next
    case zero
    have "atan2 y x = pi / 2 \<or> atan2 y x = - (pi / 2) \<or> atan2 y x = 0"
      using zero by (simp add: atan2_def)
    then show ?thesis using pi_gt_zero by linarith
  qed
qed

lemma cos_neg_upper: "pi / 2 < t \<Longrightarrow> t \<le> pi \<Longrightarrow> cos t < 0"
  using cos_monotone_0_pi [of "pi / 2" t] by simp

lemma cos_neg_lower: "- pi \<le> t \<Longrightarrow> t < - (pi / 2) \<Longrightarrow> cos t < 0"
  using cos_neg_upper [of "- t"] by simp

lemma sin_neg_lower: "- pi < t \<Longrightarrow> t < 0 \<Longrightarrow> sin t < 0"
  using sin_gt_zero [of "- t"] by simp

lemma atan2_pos: "0 < x \<Longrightarrow> atan2 y x = arctan (y / x)"
  by (simp add: atan2_def)

lemma atan2_neg_nonneg: "x < 0 \<Longrightarrow> 0 \<le> y \<Longrightarrow> atan2 y x = arctan (y / x) + pi"
  by (simp add: atan2_def)

lemma atan2_neg_neg: "x < 0 \<Longrightarrow> y < 0 \<Longrightarrow> atan2 y x = arctan (y / x) - pi"
  by (simp add: atan2_def)

lemma atan2_polar:
  assumes r: "0 < r" and lo: "- pi < t" and hi: "t \<le> pi"
  shows "atan2 (r * sin t) (r * cos t) = t"
proof -
  have q: "(r * sin t) / (r * cos t) = tan t"
    using r by (simp add: tan_def)
  consider (mid) "- (pi / 2) < t" "t < pi / 2"
    | (up) "pi / 2 < t" | (down) "t < - (pi / 2)"
    | (top) "t = pi / 2" | (bot) "t = - (pi / 2)"
    by linarith
  then show ?thesis
  proof cases
    case mid
    then have "0 < cos t" by (rule cos_gt_zero_pi)
    then have "0 < r * cos t" using r by simp
    then have "atan2 (r * sin t) (r * cos t) = arctan (tan t)"
      by (simp only: atan2_pos q)
    then show ?thesis using mid by (simp add: arctan_tan)
  next
    case up
    then have "cos t < 0" using hi by (rule cos_neg_upper)
    then have x: "r * cos t < 0" using r by (simp add: mult_pos_neg)
    have "0 \<le> sin t" using up hi pi_gt_zero by (intro sin_ge_zero) linarith+
    then have y: "0 \<le> r * sin t" using r by simp
    have a: "atan2 (r * sin t) (r * cos t) = arctan (tan t) + pi"
      using x y by (simp only: atan2_neg_nonneg q)
    have b: "tan t = tan (t - pi)"
      using tan_periodic_pi [of "t - pi"] by simp
    have c: "arctan (tan (t - pi)) = t - pi"
      using up hi by (intro arctan_tan) linarith+
    show ?thesis unfolding a b c by simp
  next
    case down
    then have "cos t < 0" using lo by (intro cos_neg_lower) linarith+
    then have x: "r * cos t < 0" using r by (simp add: mult_pos_neg)
    have "sin t < 0" using down lo pi_gt_zero by (intro sin_neg_lower) linarith+
    then have y: "r * sin t < 0" using r by (simp add: mult_pos_neg)
    have a: "atan2 (r * sin t) (r * cos t) = arctan (tan t) - pi"
      using x y by (simp only: atan2_neg_neg q)
    have b: "tan t = tan (t + pi)" by simp
    have c: "arctan (tan (t + pi)) = t + pi"
      using down lo by (intro arctan_tan) linarith+
    show ?thesis unfolding a b c by simp
  next
    case top
    have "atan2 (r * sin (pi / 2)) (r * cos (pi / 2)) = pi / 2"
      using r by (simp add: atan2_def)
    then show ?thesis by (simp only: top)
  next
    case bot
    have "atan2 (r * sin (- (pi / 2))) (r * cos (- (pi / 2))) = - (pi / 2)"
      using r by (simp add: atan2_def)
    then show ?thesis by (simp only: bot)
  qed
qed

text \<open>The four quadrant branches of angleToPosition all compute the same point.\<close>

lemma quadrant_branches:
  "(if \<alpha> \<le> pi then
      (if \<alpha> \<le> pi / 2
       then (cos \<alpha> * r, sin \<alpha> * r)
       else (cos (pi - \<alpha>) * r * - 1, sin (pi - \<alpha>) * r))
    else if \<alpha> \<le> pi * 1.5
      then (cos (\<alpha> - pi) * r * - 1, sin (\<alpha> - pi) * r * - 1)
    else (cos (2 * pi - \<alpha>) * r, sin (2 * pi - \<alpha>) * r * - 1))
   = (cos \<alpha> * r, sin \<alpha> * r)"
  by simp

lemma angleToPosition_polar:
  assumes "convertAngle (degree a) a (Some \<lparr>direction = CCW, axis = PlusX\<rparr>) = Inr c"
  shows "angleToPosition a r s = Inr (cos (c / 180 * pi) * r + s / 2, s / 2 - sin (c / 180 * pi) * r)"
  unfolding angleToPosition_def Let_def assms sum.case quadrant_branches
  by simp

lemma positionToAngle_eq:
  "positionToAngle (x, y) s d =
     convertAngle ((if atan2 (s / 2 - y) (x - s / 2) < 0
                    then atan2 (s / 2 - y) (x - s / 2) + 2 * pi
                    else atan2 (s / 2 - y) (x - s / 2)) / pi * 180)
       \<lparr>direction = CCW, axis = PlusX\<rparr> (Some d)"
  by (simp add: positionToAngle_def Let_def)

lemma theta_degree_range:
  assumes "- pi < t" "t \<le> pi"
  shows "0 \<le> (if t < 0 then t + 2 * pi else t) / pi * 180
       \<and> (if t < 0 then t + 2 * pi else t) / pi * 180 < 360"
proof -
  let ?th = "if t < 0 then t + 2 * pi else t"
  have "0 \<le> ?th" "?th < 2 * pi" using assms pi_gt_zero by (auto split: if_splits)
  then have u: "0 \<le> ?th / pi" "?th / pi < 2"
    using pi_gt_zero by (simp_all add: field_simps)
  have "0 \<le> u * 180 \<and> u * 180 < 360" if "0 \<le> u" "u < 2" for u :: real
    using that by simp
  from this [OF u] show ?thesis .
qed

lemma positionToAngle_polar:
  assumes r: "0 < r"
  shows "\<exists>deg. 0 \<le> deg \<and> deg < 360 \<and> cong360 deg c
           \<and> positionToAngle (cos (c / 180 * pi) * r + s / 2, s / 2 - sin (c / 180 * pi) * r) s d
               = convertAngle deg \<lparr>direction = CCW, axis = PlusX\<rparr> (Some d)"
proof -
  let ?\<alpha> = "c / 180 * pi"
  obtain t where t: "- pi < t" "t \<le> pi" "sin t = sin ?\<alpha>" "cos t = cos ?\<alpha>"
    using sincos_principal_value [of ?\<alpha>] by blast
  then obtain k :: int where k: "t = ?\<alpha> + 2 * pi * of_int k"
    using sin_cos_eq_iff [of t ?\<alpha>] by blast
  let ?th = "if t < 0 then t + 2 * pi else t"
  let ?deg = "?th / pi * 180"
  have at: "atan2 (s / 2 - (s / 2 - sin ?\<alpha> * r)) (cos ?\<alpha> * r + s / 2 - s / 2) = t"
  proof -
    have "atan2 (r * sin t) (r * cos t) = t" using r t(1,2) by (rule atan2_polar)
    then show ?thesis by (simp add: t(3,4) mult.commute)
  qed
  have range: "0 \<le> ?deg \<and> ?deg < 360" using t(1,2) by (rule theta_degree_range)
  have "t / pi * 180 = c + 360 * of_int k"
    unfolding k using pi_gt_zero by (simp add: field_simps)
  then have "?deg = c + 360 * of_int k \<or> ?deg = c + 360 * of_int (k + 1)"
    using pi_gt_zero by (auto simp: field_simps)
  then have cong: "cong360 ?deg c" unfolding cong360_def by blast
  have "positionToAngle (cos ?\<alpha> * r + s / 2, s / 2 - sin ?\<alpha> * r) s d
          = convertAngle ?deg \<lparr>direction = CCW, axis = PlusX\<rparr> (Some d)"
    unfolding positionToAngle_eq at ..
  with range cong show ?thesis by blast
qed

lemma angleToPosition_returns: "\<exists>p. angleToPosition a r s = Inr p"
proof -
  obtain c where "convertAngle (degree a) a (Some \<lparr>direction = CCW, axis = PlusX\<rparr>) = Inr c"
    using convertAngle_affine by blast
  then show ?thesis using angleToPosition_polar by blast
qed

lemma angleToPosition_canonical:
  "angleToPosition \<lparr>direction = CCW, axis = PlusX, degree = a\<rparr> r s =
     Inr (cos (a / 180 * pi) * r + s / 2, s / 2 - sin (a / 180 * pi) * r)"
  by (rule angleToPosition_polar) (simp add: convertAngle_def)

lemma three_quarter_turn: "cos (3 * pi / 2) = 0" "sin (3 * pi / 2) = - 1"
proof -
  have e: "3 * pi / 2 = 3 / 2 * pi" by simp
  show "cos (3 * pi / 2) = 0" "sin (3 * pi / 2) = - 1"
    unfolding e by (rule cos_3over2_pi, rule sin_3over2_pi)
qed

section \<open>Angle and screen position: results\<close>

text \<open>
  C4.  For every degree \<open>a\<close>, every radius \<open>> 0\<close>, every \<open>svgSize\<close> and every
  description \<open>d\<close>: \<open>angleToPosition\<close> of \<open>a\<close> under \<open>d\<close> returns a position, and
  \<open>positionToAngle\<close> of that position under the same \<open>d\<close> and \<open>svgSize\<close> returns a
  degree that equals \<open>a\<close> modulo 360 (exactly, in real arithmetic).
\<close>

theorem position_angle_roundtrip:
  assumes "0 < radius"
  shows "\<exists>p v. angleToPosition \<lparr>direction = direction d, axis = axis d, degree = a\<rparr> radius svgSize = Inr p
            \<and> positionToAngle p svgSize d = Inr v
            \<and> cong360 v a"
proof -
  let ?std = "\<lparr>direction = CCW, axis = PlusX\<rparr>"
  let ?ang = "\<lparr>direction = direction d, axis = axis d, degree = a\<rparr>"
  have d: "\<lparr>direction = direction d, axis = axis d\<rparr> = d" by simp
  obtain c where c: "convertAngle a ?ang (Some ?std) = Inr c"
    and cc: "cong360 c (turnOffset d ?std + senseSign d ?std * a)"
    using convertAngle_affine [of a ?ang ?std] by (auto simp: d)
  let ?p = "(cos (c / 180 * pi) * radius + svgSize / 2, svgSize / 2 - sin (c / 180 * pi) * radius)"
  have p: "angleToPosition ?ang radius svgSize = Inr ?p"
    using c by (intro angleToPosition_polar) simp
  obtain deg where deg: "cong360 deg c"
    and inv: "positionToAngle ?p svgSize d = convertAngle deg ?std (Some d)"
    using positionToAngle_polar [OF assms, of c svgSize d] by blast
  obtain v where v: "convertAngle deg ?std (Some d) = Inr v"
    and vc: "cong360 v (turnOffset ?std d + senseSign ?std d * deg)"
    using convertAngle_affine [of deg ?std d] by blast
  have "cong360 deg (turnOffset d ?std + senseSign d ?std * a)"
    using deg cc by (rule cong360_trans)
  then have "cong360 (senseSign ?std d * deg)
               (senseSign ?std d * (turnOffset d ?std + senseSign d ?std * a))"
    by (rule cong360_scale)
  then have "cong360 (turnOffset ?std d + senseSign ?std d * deg)
               (turnOffset ?std d + senseSign ?std d * (turnOffset d ?std + senseSign d ?std * a))"
    by (rule cong360_add)
  with vc have "cong360 v
               (turnOffset ?std d + senseSign ?std d * (turnOffset d ?std + senseSign d ?std * a))"
    by (rule cong360_trans)
  then have "cong360 v a" using there_and_back [of d a] by (rule cong360_trans)
  with p inv v show ?thesis by simp
qed

theorem position_angle_roundtrip_witness:
  "(0::real) < 50
   \<and> (\<exists>p v. angleToPosition \<lparr>direction = CW, axis = MinusY, degree = - 450\<rparr> 50 200 = Inr p
            \<and> positionToAngle p 200 \<lparr>direction = CW, axis = MinusY\<rparr> = Inr v
            \<and> cong360 v (- 450))"
  using position_angle_roundtrip [of 50 "\<lparr>direction = CW, axis = MinusY\<rparr>" "- 450" 200]
  by simp

text \<open>
  C9.  Counterclockwise from \<open>+x\<close>, with \<open>svgSize = 200\<close> and \<open>radius = 50\<close>:
  \<open>angleToPosition\<close> maps 0 to \<open>(150, 100)\<close>, 90 to \<open>(100, 50)\<close>, 180 to
  \<open>(50, 100)\<close> and 270 to \<open>(100, 150)\<close>; \<open>positionToAngle\<close> maps these four
  positions back to 0, 90, 180 and 270.
\<close>

theorem cardinal_positions:
  "angleToPosition \<lparr>direction = CCW, axis = PlusX, degree = 0\<rparr> 50 200 = Inr (150, 100)
   \<and> angleToPosition \<lparr>direction = CCW, axis = PlusX, degree = 90\<rparr> 50 200 = Inr (100, 50)
   \<and> angleToPosition \<lparr>direction = CCW, axis = PlusX, degree = 180\<rparr> 50 200 = Inr (50, 100)
   \<and> angleToPosition \<lparr>direction = CCW, axis = PlusX, degree = 270\<rparr> 50 200 = Inr (100, 150)
   \<and> positionToAngle (150, 100) 200 \<lparr>direction = CCW, axis = PlusX\<rparr> = Inr 0
   \<and> positionToAngle (100, 50) 200 \<lparr>direction = CCW, axis = PlusX\<rparr> = Inr 90
   \<and> positionToAngle (50, 100) 200 \<lparr>direction = CCW, axis = PlusX\<rparr> = Inr 180
   \<and> positionToAngle (100, 150) 200 \<lparr>direction = CCW, axis = PlusX\<rparr> = Inr 270"
proof -
  let ?std = "\<lparr>direction = CCW, axis = PlusX\<rparr>"
  have conv: "convertAngle a \<lparr>direction = CCW, axis = PlusX, degree = a\<rparr> (Some ?std) = Inr a"
             "convertAngle a ?std (Some ?std) = Inr a" for a
    by (simp_all add: convertAngle_def)
  have a0: "angleToPosition \<lparr>direction = CCW, axis = PlusX, degree = 0\<rparr> 50 200 = Inr (150, 100)"
    using angleToPosition_polar [of "\<lparr>direction = CCW, axis = PlusX, degree = 0\<rparr>" 0 50 200]
    by (simp add: conv)
  have a90: "angleToPosition \<lparr>direction = CCW, axis = PlusX, degree = 90\<rparr> 50 200 = Inr (100, 50)"
    using angleToPosition_polar [of "\<lparr>direction = CCW, axis = PlusX, degree = 90\<rparr>" 90 50 200]
    by (simp add: conv)
  have a180: "angleToPosition \<lparr>direction = CCW, axis = PlusX, degree = 180\<rparr> 50 200 = Inr (50, 100)"
    using angleToPosition_polar [of "\<lparr>direction = CCW, axis = PlusX, degree = 180\<rparr>" 180 50 200]
    by (simp add: conv)
  have e: "3 * pi / 2 = 3 / 2 * pi" by simp
  have tq: "cos (3 * pi / 2) = 0" "sin (3 * pi / 2) = - 1"
    unfolding e by (rule cos_3over2_pi, rule sin_3over2_pi)
  have a270: "angleToPosition \<lparr>direction = CCW, axis = PlusX, degree = 270\<rparr> 50 200 = Inr (100, 150)"
    using angleToPosition_polar [of "\<lparr>direction = CCW, axis = PlusX, degree = 270\<rparr>" 270 50 200]
    by (simp add: conv tq)
  have p0: "positionToAngle (150, 100) 200 ?std = Inr 0"
    by (simp add: positionToAngle_eq atan2_def conv)
  have p90: "positionToAngle (100, 50) 200 ?std = Inr 90"
    by (simp add: positionToAngle_eq atan2_def conv)
  have p180: "positionToAngle (50, 100) 200 ?std = Inr 180"
    by (simp add: positionToAngle_eq atan2_def conv)
  have p270: "positionToAngle (100, 150) 200 ?std = Inr 270"
    by (simp add: positionToAngle_eq atan2_def conv)
  from a0 a90 a180 a270 p0 p90 p180 p270 show ?thesis by blast
qed

text \<open>
  C10 (up to rounding).  In exact arithmetic, for every position, every \<open>svgSize\<close> and
  every target description, \<open>positionToAngle\<close> returns a degree in \<open>[0, 360)\<close>: the
  angle of \<open>atan2\<close>, moved into \<open>[0, 2\<pi>)\<close>, is a degree in \<open>[0, 360)\<close>, and
  \<open>convertAngle\<close> maps a degree of \<open>[0, 360)\<close> to a degree of \<open>[0, 360)\<close>.
\<close>

theorem positionToAngle_range:
  "(\<exists>v. positionToAngle (x, y) svgSize d = Inr v \<and> 0 \<le> v \<and> v < 360)
   \<and> (0 \<le> deg \<and> deg < 360 \<longrightarrow>
        (\<exists>w. convertAngle deg from (Some to) = Inr w \<and> 0 \<le> w \<and> w < 360))"
proof -
  let ?t = "atan2 (svgSize / 2 - y) (x - svgSize / 2)"
  have "- pi < ?t" "?t \<le> pi" using atan2_bounds [of "svgSize / 2 - y" "x - svgSize / 2"] by simp_all
  then have "0 \<le> (if ?t < 0 then ?t + 2 * pi else ?t) / pi * 180
           \<and> (if ?t < 0 then ?t + 2 * pi else ?t) / pi * 180 < 360"
    by (rule theta_degree_range)
  then have "\<exists>v. positionToAngle (x, y) svgSize d = Inr v \<and> 0 \<le> v \<and> v < 360"
    unfolding positionToAngle_eq using convertAngle_range by blast
  then show ?thesis using convertAngle_range by blast
qed

theorem positionToAngle_range_witness:
  "(\<exists>v. positionToAngle (150, 101) 200 \<lparr>direction = CW, axis = PlusY\<rparr> = Inr v \<and> 0 \<le> v \<and> v < 360)
   \<and> (\<exists>w. convertAngle 359 \<lparr>direction = CW, axis = PlusY\<rparr> (Some \<lparr>direction = CCW, axis = MinusX\<rparr>) = Inr w
            \<and> 0 \<le> w \<and> w < 360)"
  using positionToAngle_range [of 150 101 200 "\<lparr>direction = CW, axis = PlusY\<rparr>" 359
          "\<lparr>direction = CW, axis = PlusY\<rparr>" "\<lparr>direction = CCW, axis = MinusX\<rparr>"]
  by simp

lemma arctan_lower: "0 \<le> z \<Longrightarrow> z \<le> 1 \<Longrightarrow> z / 2 \<le> arctan z"
proof -
  assume z: "0 \<le> z" "z \<le> 1"
  have "sqrt (1 + z\<^sup>2) \<le> sqrt 4"
    using z power_le_one [of z 2] by (intro real_sqrt_le_mono) simp
  then have s: "sqrt (1 + z\<^sup>2) \<le> 2" by simp
  have s0: "0 < sqrt (1 + z\<^sup>2)" by (intro real_sqrt_gt_zero add_pos_nonneg) simp_all
  have "z / 2 \<le> z / sqrt (1 + z\<^sup>2)"
    using z s s0 by (intro divide_left_mono) simp_all
  also have "\<dots> = sin (arctan z)" by (simp add: sin_arctan)
  also have "\<dots> \<le> arctan z" using z by (intro sin_x_le_x) simp
  finally show ?thesis .
qed


lemma arctan_upper: "0 \<le> z \<Longrightarrow> arctan z \<le> z"
proof -
  assume z: "0 \<le> z"
  have "(\<lambda>x. x - arctan x) 0 \<le> (\<lambda>x. x - arctan x) z"
  proof (rule DERIV_nonneg_imp_nondecreasing [OF z])
    fix x :: real
    have "0 < 1 + x\<^sup>2" by (simp add: add_pos_nonneg)
    moreover have "1 \<le> 1 + x\<^sup>2" by simp
    ultimately have "inverse (1 + x\<^sup>2) \<le> 1" by (simp add: inverse_le_1_iff)
    moreover have "DERIV (\<lambda>x. x - arctan x) x :> 1 - inverse (1 + x\<^sup>2)"
      by (auto intro!: derivative_eq_intros)
    ultimately show "\<exists>y. DERIV (\<lambda>x. x - arctan x) x :> y \<and> 0 \<le> y"
      by (intro exI [of _ "1 - inverse (1 + x\<^sup>2)"]) simp
  qed
  then show ?thesis by simp
qed

lemma fl_below_two_pi:
  assumes "- (1 / 2 ^ 51) < t" "t < 0"
  shows "fl (t + 2 * Math_PI) = 2 * Math_PI"
proof -
  let ?x = "t + 2 * Math_PI"
  have x: "2 powi 2 \<le> \<bar>?x\<bar>" "\<bar>?x\<bar> < 2 powi (2 + 1)"
    using assms by (simp_all add: Math_PI_def)
  have "\<bar>?x / 2 powi (2 - 52) - of_int 7074237752028440\<bar> < 1 / 2"
    using assms by (simp add: Math_PI_def abs_less_iff field_simps)
  then have "rne (?x / 2 powi (2 - 52)) = 7074237752028440" by (rule rne_near)
  then show ?thesis
    using fl_in_binade [OF x] by (simp add: Math_PI_def)
qed

lemma fl_tiny_negative:
  assumes "- (1 / (50 * 2 ^ 46)) \<le> x" "x \<le> - (1 / (100 * 2 ^ 46))"
  shows "- (1 / 2 ^ 51) < fl x \<and> fl x < 0"
proof -
  have err: "\<bar>fl x - x\<bar> \<le> 1 / 2 ^ 105"
  proof (cases "\<bar>x\<bar> < 2 powi (- 52)")
    case True
    have "2 powi (- 53) \<le> \<bar>x\<bar>" using assms by simp
    then have "\<bar>fl x - x\<bar> \<le> 2 powi (- 53 - 52) / 2"
      using True by (intro fl_error) simp_all
    then show ?thesis by simp
  next
    case False
    then have "2 powi (- 52) \<le> \<bar>x\<bar>" by simp
    moreover have "\<bar>x\<bar> < 2 powi (- 52 + 1)" using assms by simp
    ultimately have "\<bar>fl x - x\<bar> \<le> 2 powi (- 52 - 52) / 2"
      by (intro fl_error) simp_all
    then show ?thesis by simp
  qed
  then have "fl x \<le> x + 1 / 2 ^ 105" "x - 1 / 2 ^ 105 \<le> fl x"
    unfolding abs_le_iff by linarith+
  then show ?thesis using assms by simp
qed

lemma atan2_d_tiny: "- (1 / 2 ^ 51) < atan2_d (- (1 / 2 ^ 46)) 50 \<and> atan2_d (- (1 / 2 ^ 46)) 50 < 0"
proof -
  let ?z = "1 / (50 * 2 ^ 46) :: real"
  have a: "atan2 (- (1 / 2 ^ 46)) 50 = - arctan ?z"
    by (simp add: atan2_def arctan_minus [symmetric])
  have "?z / 2 \<le> arctan ?z" by (rule arctan_lower) simp_all
  moreover have "arctan ?z \<le> ?z" by (rule arctan_upper) simp
  ultimately have "- ?z \<le> - arctan ?z" "- arctan ?z \<le> - (1 / (100 * 2 ^ 46))" by simp_all
  then show ?thesis unfolding atan2_d_def a by (rule fl_tiny_negative)
qed

lemma positionToAngle_d_360:
  "positionToAngle_d (150, 100 + 1 / 2 ^ 46) 200 \<lparr>direction = CCW, axis = PlusX\<rparr> = Inr 360"
proof -
  have h: "fl (200 / 2) = 100" using fl_in_binade [of 6 100] by simp
  have dx: "fl (150 - 100) = 50" using fl_in_binade [of 5 50] by simp
  have dy: "fl (100 - (100 + 1 / 2 ^ 46)) = - (1 / 2 ^ 46)"
    using fl_in_binade [of "- 46" "- (1 / 2 ^ 46)"] by simp
  have tp: "fl (2 * Math_PI) = 2 * Math_PI"
    using fl_in_binade [of 2 "2 * Math_PI"] by (simp add: Math_PI_def)
  let ?t = "atan2_d (- (1 / 2 ^ 46)) 50"
  have t: "- (1 / 2 ^ 51) < ?t" "?t < 0" using atan2_d_tiny by simp_all
  have th: "fl (?t + 2 * Math_PI) = 2 * Math_PI" using t by (rule fl_below_two_pi)
  have q: "fl (2 * Math_PI / Math_PI) = 2"
    using fl_in_binade [of 1 2] by (simp add: Math_PI_def)
  have deg: "fl (2 * 180) = 360" using fl_in_binade [of 8 360] by simp
  have conv: "convertAngle_d 360 \<lparr>direction = CCW, axis = PlusX\<rparr>
                (Some \<lparr>direction = CCW, axis = PlusX\<rparr>) = Inr 360"
    by (simp add: convertAngle_d_def)
  show ?thesis
    unfolding positionToAngle_d_def Let_def fst_conv snd_conv h dx dy tp
    using t(2) by (simp only: if_True th q deg conv)
qed

lemma convertAngle_d_360:
  "convertAngle_d (1 / 2 ^ 70) \<lparr>direction = CCW, axis = PlusX\<rparr>
     (Some \<lparr>direction = CW, axis = PlusX\<rparr>) = Inr 360"
proof -
  have "\<bar>(360 - 1 / 2 ^ 70) / 2 powi (8 - 52) - of_int 6333186975989760\<bar> < (1 / 2 :: real)"
    by (simp add: abs_less_iff field_simps)
  then have "rne ((360 - 1 / 2 ^ 70) / 2 powi (8 - 52)) = 6333186975989760" by (rule rne_near)
  then have "fl (360 - 1 / 2 ^ 70) = 360"
    using fl_in_binade [of 8 "360 - 1 / 2 ^ 70"] by simp
  then show ?thesis by (simp add: convertAngle_d_def)
qed

text \<open>
  C10 as stated fails in double precision: the bound \<open>360\<close> itself is returned.  For
  the position \<open>(150, 100 + 2 ^ (- 46))\<close> (\<open>y\<close> is the binary64 value after \<open>100\<close>, printed
  \<open>100.00000000000001\<close>) and \<open>svgSize = 200\<close>, counterclockwise from \<open>+x\<close>: the angle of
  \<open>atan2\<close> is negative and smaller than half the spacing of binary64 values near \<open>2\<pi>\<close>,
  so adding \<open>2 * Math.PI\<close> rounds to \<open>2 * Math.PI\<close> and the degree is \<open>360\<close>.  Likewise
  \<open>convertAngle\<close> turns the degree \<open>2 ^ (- 70)\<close> of \<open>[0, 360)\<close>, from counterclockwise to
  clockwise, into \<open>360 - 2 ^ (- 70)\<close>, which rounds to \<open>360\<close>.
\<close>

theorem positionToAngle_range_counterexample:
  "fl (100 + 1 / 2 ^ 46) = 100 + 1 / 2 ^ 46
   \<and> positionToAngle_d (150, 100 + 1 / 2 ^ 46) 200 \<lparr>direction = CCW, axis = PlusX\<rparr> = Inr 360
   \<and> convertAngle_d (1 / 2 ^ 70) \<lparr>direction = CCW, axis = PlusX\<rparr>
        (Some \<lparr>direction = CW, axis = PlusX\<rparr>) = Inr 360"
  using fl_in_binade [of 6 "100 + 1 / 2 ^ 46"] positionToAngle_d_360 convertAngle_d_360
  by simp

section \<open>The arc path: results\<close>

lemma arcPath_unfold:
  assumes "endAngle' = (if js_rem startAngle 360 = js_rem endAngle 360 \<and> startAngle \<noteq> endAngle
                        then endAngle - 0.001 else endAngle)"
    and "large = (if 180 \<le> endAngle' - startAngle then ''1'' else ''0'')"
    and "angleToPosition \<lparr>direction = direction angleType, axis = axis angleType, degree = startAngle\<rparr>
           innerRadius svgSize = Inr (x0, y0)"
    and "angleToPosition \<lparr>direction = direction angleType, axis = axis angleType, degree = endAngle'\<rparr>
           innerRadius svgSize = Inr (x1, y1)"
    and "angleToPosition \<lparr>direction = direction angleType, axis = axis angleType, degree = endAngle'\<rparr>
           (innerRadius + thickness) svgSize = Inr (x2, y2)"
    and "angleToPosition \<lparr>direction = direction angleType, axis = axis angleType, degree = startAngle\<rparr>
           (innerRadius + thickness) svgSize = Inr (x3, y3)"
  shows "arcPathWithRoundedEnds startAngle endAngle angleType innerRadius thickness svgSize dir =
          Inr [MoveTo x0 y0,
               ArcTo innerRadius innerRadius 0 large (if dir = CW then ''1'' else ''0'') x1 y1,
               ArcTo (thickness / 2) (thickness / 2) 0 large (if dir = CW then ''0'' else ''1'') x2 y2,
               ArcTo (innerRadius + thickness) (innerRadius + thickness) 0 large
                 (if dir = CW then ''0'' else ''1'') x3 y3,
               ArcTo (thickness / 2) (thickness / 2) 0 large (if dir = CW then ''0'' else ''1'') x0 y0,
               ClosePath]"
  unfolding arcPathWithRoundedEnds_def Let_def assms(1) [symmetric]
  by (simp add: assms(2-))

lemma arcPath_shape:
  "\<exists>x0 y0 x1 y1 x2 y2 x3 y3.
     arcPathWithRoundedEnds startAngle endAngle angleType innerRadius thickness svgSize dir =
       Inr [MoveTo x0 y0,
            ArcTo innerRadius innerRadius 0
              (if 180 \<le> (if js_rem startAngle 360 = js_rem endAngle 360 \<and> startAngle \<noteq> endAngle
                          then endAngle - 0.001 else endAngle) - startAngle
               then ''1'' else ''0'')
              (if dir = CW then ''1'' else ''0'') x1 y1,
            ArcTo (thickness / 2) (thickness / 2) 0
              (if 180 \<le> (if js_rem startAngle 360 = js_rem endAngle 360 \<and> startAngle \<noteq> endAngle
                          then endAngle - 0.001 else endAngle) - startAngle
               then ''1'' else ''0'')
              (if dir = CW then ''0'' else ''1'') x2 y2,
            ArcTo (innerRadius + thickness) (innerRadius + thickness) 0
              (if 180 \<le> (if js_rem startAngle 360 = js_rem endAngle 360 \<and> startAngle \<noteq> endAngle
                          then endAngle - 0.001 else endAngle) - startAngle
               then ''1'' else ''0'')
              (if dir = CW then ''0'' else ''1'') x3 y3,
            ArcTo (thickness / 2) (thickness / 2) 0
              (if 180 \<le> (if js_rem startAngle 360 = js_rem endAngle 360 \<and> startAngle \<noteq> endAngle
                          then endAngle - 0.001 else endAngle) - startAngle
               then ''1'' else ''0'')
              (if dir = CW then ''0'' else ''1'') x0 y0,
            ClosePath]"
proof -
  define endAngle' where "endAngle' =
    (if js_rem startAngle 360 = js_rem endAngle 360 \<and> startAngle \<noteq> endAngle
     then endAngle - 0.001 else endAngle)"
  define large where "large = (if 180 \<le> endAngle' - startAngle then ''1'' else ''0'')"
  obtain x0 y0 where p0: "angleToPosition
      \<lparr>direction = direction angleType, axis = axis angleType, degree = startAngle\<rparr>
      innerRadius svgSize = Inr (x0, y0)"
    using angleToPosition_returns by (metis surj_pair)
  obtain x1 y1 where p1: "angleToPosition
      \<lparr>direction = direction angleType, axis = axis angleType, degree = endAngle'\<rparr>
      innerRadius svgSize = Inr (x1, y1)"
    using angleToPosition_returns by (metis surj_pair)
  obtain x2 y2 where p2: "angleToPosition
      \<lparr>direction = direction angleType, axis = axis angleType, degree = endAngle'\<rparr>
      (innerRadius + thickness) svgSize = Inr (x2, y2)"
    using angleToPosition_returns by (metis surj_pair)
  obtain x3 y3 where p3: "angleToPosition
      \<lparr>direction = direction angleType, axis = axis angleType, degree = startAngle\<rparr>
      (innerRadius + thickness) svgSize = Inr (x3, y3)"
    using angleToPosition_returns by (metis surj_pair)
  from arcPath_unfold [OF endAngle'_def large_def p0 p1 p2 p3]
  show ?thesis unfolding large_def endAngle'_def by blast
qed

text \<open>
  C7 (as the code has it).  The path is a move, four arcs and a closing command.
  The inner arc carries the sweep flag of \<open>direction\<close> (\<open>''1''\<close> for clockwise,
  \<open>''0''\<close> otherwise); the first cap, the outer arc and the second cap all carry the
  complement of that flag.  The outer arc runs back from the end angle to the start
  angle, so its flag is the one of the caps, not the one of the inner arc.
\<close>

theorem arc_sweep_flags:
  "\<exists>x0 y0 x1 y1 x2 y2 x3 y3 large.
     arcPathWithRoundedEnds startAngle endAngle angleType innerRadius thickness svgSize dir =
       Inr [MoveTo x0 y0,
            ArcTo innerRadius innerRadius 0 large (if dir = CW then ''1'' else ''0'') x1 y1,
            ArcTo (thickness / 2) (thickness / 2) 0 large (if dir = CW then ''0'' else ''1'') x2 y2,
            ArcTo (innerRadius + thickness) (innerRadius + thickness) 0 large
              (if dir = CW then ''0'' else ''1'') x3 y3,
            ArcTo (thickness / 2) (thickness / 2) 0 large (if dir = CW then ''0'' else ''1'') x0 y0,
            ClosePath]"
  using arcPath_shape [of startAngle endAngle angleType innerRadius thickness svgSize dir]
  by blast

theorem arc_sweep_flags_witness:
  "\<exists>x0 y0 x1 y1 x2 y2 x3 y3 large.
     arcPathWithRoundedEnds 0 90 \<lparr>direction = CW, axis = PlusY\<rparr> 40 10 200 CW =
       Inr [MoveTo x0 y0,
            ArcTo 40 40 0 large ''1'' x1 y1,
            ArcTo 5 5 0 large ''0'' x2 y2,
            ArcTo 50 50 0 large ''0'' x3 y3,
            ArcTo 5 5 0 large ''0'' x0 y0,
            ClosePath]"
  using arc_sweep_flags [of 0 90 "\<lparr>direction = CW, axis = PlusY\<rparr>" 40 10 200 CW]
  by simp

text \<open>
  C7 as stated fails: from 0 to 90 degrees, counterclockwise, the outer arc carries the
  same sweep flag \<open>''1''\<close> as the two caps; only the inner arc carries \<open>''0''\<close>.
\<close>

theorem arc_sweep_counterexample:
  "arcPathWithRoundedEnds 0 90 \<lparr>direction = CCW, axis = PlusX\<rparr> 40 10 200 CCW =
     Inr [MoveTo 140 100,
          ArcTo 40 40 0 ''0'' ''0'' 100 60,
          ArcTo 5 5 0 ''0'' ''1'' 100 50,
          ArcTo 50 50 0 ''0'' ''1'' 150 100,
          ArcTo 5 5 0 ''0'' ''1'' 140 100,
          ClosePath]
   \<and> map_sum id sweepFlags (arcPathWithRoundedEnds 0 90 \<lparr>direction = CCW, axis = PlusX\<rparr> 40 10 200 CCW)
       = Inr [''0'', ''1'', ''1'', ''1'']"
proof -
  have "arcPathWithRoundedEnds 0 90 \<lparr>direction = CCW, axis = PlusX\<rparr> 40 10 200 CCW =
     Inr [MoveTo 140 100,
          ArcTo 40 40 0 ''0'' ''0'' 100 60,
          ArcTo 5 5 0 ''0'' ''1'' 100 50,
          ArcTo 50 50 0 ''0'' ''1'' 150 100,
          ArcTo 5 5 0 ''0'' ''1'' 140 100,
          ClosePath]"
    by (simp add: arcPathWithRoundedEnds_def Let_def js_rem_small angleToPosition_canonical)
  then show ?thesis by simp
qed

text \<open>
  C8 at the angles \<open>-90\<close> and \<open>270\<close>.  They are congruent modulo 360 and not equal,
  but their remainders \<open>-90 % 360 = -90\<close> and \<open>270 % 360 = 270\<close> differ, so the end
  angle is not reduced: the inner arc starts and ends at \<open>(100, 140)\<close> and the outer
  arc starts and ends at \<open>(100, 150)\<close>, with the large-arc flag set.
\<close>

theorem full_circle_not_nudged:
  "cong360 270 (- 90) \<and> (270::real) \<noteq> - 90
   \<and> arcPathWithRoundedEnds (- 90) 270 \<lparr>direction = CCW, axis = PlusX\<rparr> 40 10 200 CCW =
       Inr [MoveTo 100 140,
            ArcTo 40 40 0 ''1'' ''0'' 100 140,
            ArcTo 5 5 0 ''1'' ''1'' 100 150,
            ArcTo 50 50 0 ''1'' ''1'' 100 150,
            ArcTo 5 5 0 ''1'' ''1'' 100 140,
            ClosePath]"
proof -
  have "cong360 270 (- 90)"
    unfolding cong360_def by (rule exI [of _ 1]) simp
  moreover have "arcPathWithRoundedEnds (- 90) 270 \<lparr>direction = CCW, axis = PlusX\<rparr> 40 10 200 CCW =
       Inr [MoveTo 100 140,
            ArcTo 40 40 0 ''1'' ''0'' 100 140,
            ArcTo 5 5 0 ''1'' ''1'' 100 150,
            ArcTo 50 50 0 ''1'' ''1'' 100 150,
            ArcTo 5 5 0 ''1'' ''1'' 100 140,
            ClosePath]"
    by (simp add: arcPathWithRoundedEnds_def Let_def js_rem_small angleToPosition_canonical
          three_quarter_turn)
  ultimately show ?thesis by simp
qed

section \<open>The arc path: the large-arc flag and the full circle from 0 to 360\<close>

text \<open>
  For every input the function returns a path, and its four arcs carry one large-arc
  flag: \<open>''1''\<close> exactly when the end angle minus the start angle is at least 180,
  taken on the angles as given (no reduction into \<open>[0, 360)\<close>), after the end angle
  has been lowered by \<open>0.001\<close> in case \<open>startAngle % 360 = endAngle % 360\<close> and
  \<open>startAngle \<noteq> endAngle\<close>.
\<close>

theorem arc_large_flag:
  "\<exists>x0 y0 x1 y1 x2 y2 x3 y3 large.
     large = (if 180 \<le> (if js_rem startAngle 360 = js_rem endAngle 360 \<and> startAngle \<noteq> endAngle
                          then endAngle - 0.001 else endAngle) - startAngle
              then ''1'' else ''0'')
     \<and> arcPathWithRoundedEnds startAngle endAngle angleType innerRadius thickness svgSize dir =
       Inr [MoveTo x0 y0,
            ArcTo innerRadius innerRadius 0 large (if dir = CW then ''1'' else ''0'') x1 y1,
            ArcTo (thickness / 2) (thickness / 2) 0 large (if dir = CW then ''0'' else ''1'') x2 y2,
            ArcTo (innerRadius + thickness) (innerRadius + thickness) 0 large
              (if dir = CW then ''0'' else ''1'') x3 y3,
            ArcTo (thickness / 2) (thickness / 2) 0 large (if dir = CW then ''0'' else ''1'') x0 y0,
            ClosePath]"
  using arcPath_shape [of startAngle endAngle angleType innerRadius thickness svgSize dir]
  by blast

lemma position_injective:
  assumes r: "0 < r"
    and eq: "(cos (c / 180 * pi) * r + s / 2, s / 2 - sin (c / 180 * pi) * r)
           = (cos (c' / 180 * pi) * r + s / 2, s / 2 - sin (c' / 180 * pi) * r)"
  shows "cong360 c c'"
proof -
  from eq r have "sin (c / 180 * pi) = sin (c' / 180 * pi) \<and> cos (c / 180 * pi) = cos (c' / 180 * pi)"
    by simp
  then obtain k :: int where "c / 180 * pi = c' / 180 * pi + 2 * pi * of_int k"
    using sin_cos_eq_iff [of "c / 180 * pi" "c' / 180 * pi"] by blast
  then have "pi * c = pi * (c' + 360 * of_int k)"
    by (simp add: field_simps)
  then have "c = c' + 360 * of_int k"
    using pi_gt_zero by simp
  then show ?thesis unfolding cong360_def ..
qed

lemma not_cong360_nudged: "\<not> cong360 (s * 359.999) 0" if "s = 1 \<or> s = - 1" for s :: real
proof
  assume "cong360 (s * 359.999) 0"
  then obtain k :: int where k: "s * 359.999 = 360 * of_int k"
    unfolding cong360_def by auto
  from that show False
  proof
    assume "s = 1"
    with k have "0 < (of_int k :: real)" "(of_int k :: real) < 1" by simp_all
    then have "0 < k" "k < 1" by simp_all
    then show False by linarith
  next
    assume "s = - 1"
    with k have "(of_int k :: real) < 0" "- 1 < (of_int k :: real)" by simp_all
    then have "k < 0" "- 1 < k" by linarith+
    then show False by linarith
  qed
qed

text \<open>
  The full circle from 0 to 360, under every description: the end angle becomes
  \<open>359.999\<close>, the large-arc flag is \<open>''1''\<close>, and an arc of positive radius does not end
  where it starts, so the path does not collapse to zero length.
\<close>

theorem full_circle_0_360:
  "\<exists>x0 y0 x1 y1 x2 y2 x3 y3.
     arcPathWithRoundedEnds 0 360 angleType innerRadius thickness svgSize dir =
       Inr [MoveTo x0 y0,
            ArcTo innerRadius innerRadius 0 ''1'' (if dir = CW then ''1'' else ''0'') x1 y1,
            ArcTo (thickness / 2) (thickness / 2) 0 ''1'' (if dir = CW then ''0'' else ''1'') x2 y2,
            ArcTo (innerRadius + thickness) (innerRadius + thickness) 0 ''1''
              (if dir = CW then ''0'' else ''1'') x3 y3,
            ArcTo (thickness / 2) (thickness / 2) 0 ''1'' (if dir = CW then ''0'' else ''1'') x0 y0,
            ClosePath]
     \<and> (0 < innerRadius \<longrightarrow> (x1, y1) \<noteq> (x0, y0))
     \<and> (0 < innerRadius + thickness \<longrightarrow> (x2, y2) \<noteq> (x3, y3))"
proof -
  let ?std = "\<lparr>direction = CCW, axis = PlusX\<rparr>"
  let ?at = "\<lambda>a. \<lparr>direction = direction angleType, axis = axis angleType, degree = a\<rparr>"
  have at: "\<lparr>direction = direction angleType, axis = axis angleType\<rparr> = angleType" by simp
  have nudge: "(if js_rem 0 360 = js_rem 360 360 \<and> (0::real) \<noteq> 360 then 360 - 0.001 else 360)
                 = (359.999::real)"
    by (simp add: js_rem_def)
  have large: "(if 180 \<le> (359.999::real) - 0 then ''1'' else ''0'') = ''1''" by simp
  obtain c0 where c0: "convertAngle 0 (?at 0) (Some ?std) = Inr c0"
    and k0: "cong360 c0 (turnOffset angleType ?std + senseSign angleType ?std * 0)"
    using convertAngle_affine [of 0 "?at 0" ?std] by (auto simp: at)
  obtain c1 where c1: "convertAngle 359.999 (?at 359.999) (Some ?std) = Inr c1"
    and k1: "cong360 c1 (turnOffset angleType ?std + senseSign angleType ?std * 359.999)"
    using convertAngle_affine [of "359.999" "?at 359.999" ?std] by (auto simp: at)
  let ?X = "\<lambda>c r. cos (c / 180 * pi) * r + svgSize / 2"
  let ?Y = "\<lambda>c r. svgSize / 2 - sin (c / 180 * pi) * r"
  have p0: "angleToPosition (?at 0) r svgSize = Inr (?X c0 r, ?Y c0 r)" for r
    using c0 by (intro angleToPosition_polar) simp
  have p1: "angleToPosition (?at 359.999) r svgSize = Inr (?X c1 r, ?Y c1 r)" for r
    using c1 by (intro angleToPosition_polar) simp
  have differ: "(?X c1 r, ?Y c1 r) \<noteq> (?X c0 r, ?Y c0 r)" if "0 < r" for r
  proof
    assume "(?X c1 r, ?Y c1 r) = (?X c0 r, ?Y c0 r)"
    with that have "cong360 c1 c0" by (rule position_injective)
    then have "cong360 c1 (turnOffset angleType ?std + senseSign angleType ?std * 0)"
      using k0 by (rule cong360_trans)
    then have "cong360 (turnOffset angleType ?std + senseSign angleType ?std * 0) c1"
      by (rule cong360_sym)
    then have "cong360 (turnOffset angleType ?std + senseSign angleType ?std * 0)
                 (turnOffset angleType ?std + senseSign angleType ?std * 359.999)"
      using k1 by (rule cong360_trans)
    then have "cong360 (- turnOffset angleType ?std + (turnOffset angleType ?std + senseSign angleType ?std * 0))
                 (- turnOffset angleType ?std + (turnOffset angleType ?std + senseSign angleType ?std * 359.999))"
      by (rule cong360_add)
    then have "cong360 0 (senseSign angleType ?std * 359.999)" by simp
    then have "cong360 (senseSign angleType ?std * 359.999) 0" by (rule cong360_sym)
    moreover have "senseSign angleType ?std = 1 \<or> senseSign angleType ?std = - 1"
      by (simp add: senseSign_def)
    ultimately show False using not_cong360_nudged by blast
  qed
  have "arcPathWithRoundedEnds 0 360 angleType innerRadius thickness svgSize dir =
       Inr [MoveTo (?X c0 innerRadius) (?Y c0 innerRadius),
            ArcTo innerRadius innerRadius 0 ''1'' (if dir = CW then ''1'' else ''0'')
              (?X c1 innerRadius) (?Y c1 innerRadius),
            ArcTo (thickness / 2) (thickness / 2) 0 ''1'' (if dir = CW then ''0'' else ''1'')
              (?X c1 (innerRadius + thickness)) (?Y c1 (innerRadius + thickness)),
            ArcTo (innerRadius + thickness) (innerRadius + thickness) 0 ''1''
              (if dir = CW then ''0'' else ''1'')
              (?X c0 (innerRadius + thickness)) (?Y c0 (innerRadius + thickness)),
            ArcTo (thickness / 2) (thickness / 2) 0 ''1'' (if dir = CW then ''0'' else ''1'')
              (?X c0 innerRadius) (?Y c0 innerRadius),
            ClosePath]"
    by (rule arcPath_unfold [OF nudge [symmetric] large [symmetric] p0 p1 p1 p0])
  moreover have "0 < innerRadius \<longrightarrow>
      (?X c1 innerRadius, ?Y c1 innerRadius) \<noteq> (?X c0 innerRadius, ?Y c0 innerRadius)"
    using differ [of innerRadius] by blast
  moreover have "0 < innerRadius + thickness \<longrightarrow>
      (?X c1 (innerRadius + thickness), ?Y c1 (innerRadius + thickness))
        \<noteq> (?X c0 (innerRadius + thickness), ?Y c0 (innerRadius + thickness))"
    using differ [of "innerRadius + thickness"] by blast
  ultimately show ?thesis by blast
qed

theorem full_circle_0_360_witness:
  "\<exists>x0 y0 x1 y1 x2 y2 x3 y3.
     arcPathWithRoundedEnds 0 360 \<lparr>direction = CW, axis = PlusY\<rparr> 40 10 200 CW =
       Inr [MoveTo x0 y0,
            ArcTo 40 40 0 ''1'' ''1'' x1 y1,
            ArcTo 5 5 0 ''1'' ''0'' x2 y2,
            ArcTo 50 50 0 ''1'' ''0'' x3 y3,
            ArcTo 5 5 0 ''1'' ''0'' x0 y0,
            ClosePath]
     \<and> (x1, y1) \<noteq> (x0, y0) \<and> (x2, y2) \<noteq> (x3, y3)"
  using full_circle_0_360 [of "\<lparr>direction = CW, axis = PlusY\<rparr>" 40 10 200 CW]
  by simp

end
